theory Spec2Isabelle
  imports Main "HOL-Library.Sublist"
begin

section \<open>Data model (types.ts)\<close>

text \<open>
  The enum \<open>AgentStatus\<close> and the interfaces \<open>Agent\<close> and \<open>AnalysisResult\<close> of the
  source. The field \<open>id\<close> is called \<open>agent_id\<close> (\<open>id\<close> is the identity function of HOL).
  A JavaScript string is a \<open>string\<close>; \<open>string | null\<close> is a \<open>string option\<close>.

  The field \<open>outputJson : any | null\<close> holds whatever \<open>JSON.parse\<close> returned, or
  \<open>null\<close>: a value of \<open>json\<close>, with \<open>JNull\<close> for \<open>null\<close>. \<open>JObj\<close> lists the own
  properties of an object (the first entry of a key is the property). Numbers are
  restricted to the integers of magnitude below \<open>2 ^ 53\<close>, which a double holds
  exactly.
\<close>

datatype AgentStatus = Pending | Running | Success | Error

datatype json =
    JNull
  | JBool bool
  | JNum int
  | JStr string
  | JArr "json list"
  | JObj "(string \<times> json) list"

record Agent =
  agent_id :: string
  name :: string
  prompt :: string
  status :: AgentStatus
  model :: string
  "output" :: "string option"
  error :: "string option"
  outputJson :: json

record Tally =
  positive :: nat
  negative :: nat
  neutral :: nat

record AnalysisResult =
  sentiment :: "Tally option"
  entities :: "json list option"

text \<open>
  A thrown value: an instance of \<open>Error\<close> with its message, or anything else. The
  runner tells the two apart (\<open>error instanceof Error\<close>).
\<close>

datatype thrown = ErrorInstance string | NotAnError

section \<open>The provider (services/geminiService.ts)\<close>

text \<open>
  \<open>ai.models.generateContent\<close> is the external service. It is a parameter of the
  model: \<open>gen k m c\<close> is the text of the response to the call number \<open>k\<close> of a run
  (counted from 0) for the model \<open>m\<close> and the contents \<open>c\<close>, or \<open>None\<close> when that call
  fails. The call number lets the service answer two equal requests differently.
\<close>

type_synonym provider = "nat \<Rightarrow> string \<Rightarrow> string \<Rightarrow> string option"

definition fullPrompt :: "string \<Rightarrow> string \<Rightarrow> string" where
  "fullPrompt documentContent p =
     ''DOCUMENT CONTENT:'' @ [CHR 0x0A] @ ''---'' @ [CHR 0x0A] @ documentContent @ [CHR 0x0A]
       @ ''---'' @ [CHR 0x0A, CHR 0x0A] @ ''TASK:'' @ [CHR 0x0A] @ p"

definition runAgent :: "provider \<Rightarrow> nat \<Rightarrow> Agent \<Rightarrow> string \<Rightarrow> thrown + string" where
  "runAgent gen k agent documentContent =
     (case gen k (model agent) (fullPrompt documentContent (prompt agent)) of
        Some text \<Rightarrow> Inr text
      | None \<Rightarrow> Inl (ErrorInstance (''Agent '' @ [CHR 0x22] @ name agent @ [CHR 0x22]
                                      @ '' failed to execute.'')))"

definition followUpPrompt :: "string \<Rightarrow> string \<Rightarrow> string" where
  "followUpPrompt documentContent agentOutputs =
     ''Based on the original document and the analysis performed by various AI agents, ''
       @ ''generate 3 insightful follow-up questions a user might have. The original ''
       @ ''document is provided below, followed by the outputs from the agents.''
       @ [CHR 0x0A, CHR 0x0A] @ ''<Original_Document>'' @ [CHR 0x0A] @ documentContent
       @ [CHR 0x0A] @ ''</Original_Document>'' @ [CHR 0x0A, CHR 0x0A] @ ''<Agent_Outputs>''
       @ [CHR 0x0A] @ agentOutputs @ [CHR 0x0A] @ ''</Agent_Outputs>'' @ [CHR 0x0A, CHR 0x0A]
       @ ''Please provide only the 3 questions, each on a new line, prefixed with a hyphen.''"

definition generateFollowUpQuestions ::
  "provider \<Rightarrow> nat \<Rightarrow> string \<Rightarrow> string \<Rightarrow> thrown + string" where
  "generateFollowUpQuestions gen k documentContent agentOutputs =
     (case gen k ''gemini-2.5-flash'' (followUpPrompt documentContent agentOutputs) of
        Some text \<Rightarrow> Inr text
      | None \<Rightarrow> Inl (ErrorInstance ''Failed to generate follow-up questions.''))"

section \<open>Structured-output extraction (App.tsx, lines 293 to 301)\<close>

text \<open>
  The regular expression is three backticks, \<open>json\<close>, a line feed, the lazy group
  \<open>([\s\S]*?)\<close>, a line feed and three backticks. \<open>lazy_group\<close> matches the group and
  the closing delimiter at the start of its input: the group takes as few characters as
  possible. \<open>match_here\<close> matches the whole expression at the start of its input, and
  \<open>regex_match\<close> is \<open>String.prototype.match\<close>: it tries each start position from the
  left. All three return the text of the group.
\<close>

definition fence_open :: string where
  "fence_open = [CHR 0x60, CHR 0x60, CHR 0x60] @ ''json'' @ [CHR 0x0A]"

definition fence_close :: string where
  "fence_close = [CHR 0x0A, CHR 0x60, CHR 0x60, CHR 0x60]"

fun lazy_group :: "string \<Rightarrow> string option" where
  "lazy_group [] = None"
| "lazy_group (c # cs) =
     (if prefix fence_close (c # cs) then Some []
      else map_option ((#) c) (lazy_group cs))"

definition match_here :: "string \<Rightarrow> string option" where
  "match_here s =
     (if prefix fence_open s then lazy_group (drop (length fence_open) s) else None)"

fun regex_match :: "string \<Rightarrow> string option" where
  "regex_match [] = None"
| "regex_match (c # cs) =
     (case match_here (c # cs) of Some g \<Rightarrow> Some g | None \<Rightarrow> regex_match cs)"

text \<open>
  \<open>JSON.parse\<close> is a parameter: \<open>None\<close> when it throws. The inner \<open>try\<close> catches
  whatever it throws and leaves \<open>outputJson\<close> at \<open>null\<close>; an empty group is falsy and is
  not parsed.
\<close>

type_synonym parser = "string \<Rightarrow> json option"

definition extractOutputJson :: "parser \<Rightarrow> string \<Rightarrow> json" where
  "extractOutputJson JSON_parse text =
     (case regex_match text of
        None \<Rightarrow> JNull
      | Some g \<Rightarrow>
          if g \<noteq> [] then (case JSON_parse g of Some v \<Rightarrow> v | None \<Rightarrow> JNull)
          else JNull)"

text \<open>
  The extractor in the words of the specification: the first opening delimiter, then the
  first closing delimiter after it; the text between them is decoded; the result is null
  when a delimiter is missing or the text does not decode.
\<close>

fun split_at_first :: "string \<Rightarrow> string \<Rightarrow> (string \<times> string) option" where
  "split_at_first d [] = (if d = [] then Some ([], []) else None)"
| "split_at_first d (c # cs) =
     (if prefix d (c # cs) then Some ([], drop (length d) (c # cs))
      else map_option (\<lambda>(before, rest). (c # before, rest)) (split_at_first d cs))"

definition first_block :: "string \<Rightarrow> string option" where
  "first_block text =
     (case split_at_first fence_open text of
        None \<Rightarrow> None
      | Some (_, rest) \<Rightarrow> map_option fst (split_at_first fence_close rest))"

definition spec_extract :: "parser \<Rightarrow> string \<Rightarrow> json" where
  "spec_extract decode text =
     (case first_block text of
        None \<Rightarrow> JNull
      | Some body \<Rightarrow> (case decode body of Some v \<Rightarrow> v | None \<Rightarrow> JNull))"

section \<open>JavaScript coercions used by the aggregation\<close>

text \<open>
  \<open>truthy\<close> is \<open>ToBoolean\<close>. \<open>get_property v k\<close> is \<open>v.k\<close> for a value that is not
  \<open>null\<close>, with \<open>None\<close> for \<open>undefined\<close>; it is used with the keys \<open>sentiment\<close>,
  \<open>name\<close> and \<open>type\<close> only, which no prototype of a decoded value defines, so only an
  object has them, as own properties.
\<close>

fun truthy :: "json \<Rightarrow> bool" where
  "truthy JNull = False"
| "truthy (JBool b) = b"
| "truthy (JNum n) = (n \<noteq> 0)"
| "truthy (JStr s) = (s \<noteq> [])"
| "truthy (JArr xs) = True"
| "truthy (JObj kvs) = True"

fun get_property :: "json \<Rightarrow> string \<Rightarrow> json option" where
  "get_property (JObj kvs) k = map_of kvs k"
| "get_property v k = None"

fun digits :: "nat \<Rightarrow> string" where
  "digits n =
     (if n < 10 then [char_of (48 + n)] else digits (n div 10) @ [char_of (48 + n mod 10)])"

declare digits.simps [simp del]

text \<open>
  \<open>String\<close> of a number, for the integers of magnitude below \<open>2 ^ 53\<close>: it prints
  all their digits. (Beyond \<open>10 ^ 21\<close> it prints an exponent; those numbers are outside
  the model.)
\<close>

definition number_to_string :: "int \<Rightarrow> string" where
  "number_to_string n = (if n < 0 then CHR ''-'' # digits (nat (- n)) else digits (nat n))"

text \<open>
  \<open>String(v)\<close>, with \<open>None\<close> when it throws a \<open>TypeError\<close>. An array is joined with
  commas, \<open>null\<close> elements as the empty string. An object without an own property
  \<open>toString\<close> gives \<open>[object Object]\<close>; with one (a decoded value, never callable) the
  conversion finds no method that returns a primitive, and throws.
\<close>

fun js_String :: "json \<Rightarrow> string option" and js_join :: "json list \<Rightarrow> string option" where
  "js_String JNull = Some ''null''"
| "js_String (JBool b) = Some (if b then ''true'' else ''false'')"
| "js_String (JNum n) = Some (number_to_string n)"
| "js_String (JStr s) = Some s"
| "js_String (JArr xs) = js_join xs"
| "js_String (JObj kvs) =
     (if ''toString'' \<in> set (map fst kvs) then None else Some ''[object Object]'')"
| "js_join [] = Some []"
| "js_join (x # xs) =
     (case (if x = JNull then Some [] else js_String x) of
        None \<Rightarrow> None
      | Some s \<Rightarrow>
          if xs = [] then Some s
          else (case js_join xs of None \<Rightarrow> None | Some t \<Rightarrow> Some (s @ '','' @ t)))"

text \<open>
  \<open>toLowerCase\<close> on code units below 256: the letters A to Z and the capital letters of
  Latin-1 move up by 32.
\<close>

definition toLowerCase_char :: "char \<Rightarrow> char" where
  "toLowerCase_char c =
     (let n = (of_char c :: nat)
      in if (65 \<le> n \<and> n \<le> 90) \<or> (192 \<le> n \<and> n \<le> 222 \<and> n \<noteq> 215) then char_of (n + 32)
         else c)"

definition toLowerCase :: "string \<Rightarrow> string" where
  "toLowerCase s = map toLowerCase_char s"

fun join :: "string \<Rightarrow> string list \<Rightarrow> string" where
  "join sep [] = []"
| "join sep [x] = x"
| "join sep (x # y # ys) = x @ sep @ join sep (y # ys)"

section \<open>Aggregation (App.tsx, lines 316 to 334)\<close>

definition sentimentTally :: "Agent option \<Rightarrow> thrown + Tally option" where
  "sentimentTally sentimentAgent =
     (case sentimentAgent of
        None \<Rightarrow> Inr None
      | Some a \<Rightarrow>
          if outputJson a = JNull then Inr None
          else (case get_property (outputJson a) ''sentiment'' of
                  None \<Rightarrow> Inr None
                | Some v \<Rightarrow>
                    if truthy v then
                      (case js_String v of
                         None \<Rightarrow>
                           Inl (ErrorInstance ''Cannot convert object to primitive value'')
                       | Some str \<Rightarrow>
                           let s = toLowerCase str
                           in if s = ''positive''
                              then Inr (Some \<lparr>positive = 1, negative = 0, neutral = 0\<rparr>)
                              else if s = ''negative''
                              then Inr (Some \<lparr>positive = 0, negative = 1, neutral = 0\<rparr>)
                              else Inr (Some \<lparr>positive = 0, negative = 0, neutral = 1\<rparr>))
                    else Inr None))"

definition wellTypedEntity :: "json \<Rightarrow> bool" where
  "wellTypedEntity e =
     (truthy e
      \<and> (case get_property e ''name'' of Some (JStr n) \<Rightarrow> True | _ \<Rightarrow> False)
      \<and> (case get_property e ''type'' of Some (JStr t) \<Rightarrow> True | _ \<Rightarrow> False))"

definition entityList :: "Agent option \<Rightarrow> json list option" where
  "entityList entityAgent =
     (case entityAgent of
        None \<Rightarrow> None
      | Some a \<Rightarrow> (case outputJson a of JArr es \<Rightarrow> Some (filter wellTypedEntity es) | _ \<Rightarrow> None))"

definition newAnalysis :: "Agent list \<Rightarrow> thrown + AnalysisResult" where
  "newAnalysis successfulAgents =
     (let sentimentAgent = find (\<lambda>a. name a = ''Sentiment Analyzer'') successfulAgents;
          entityAgent = find (\<lambda>a. name a = ''Entity Extractor'') successfulAgents
      in case sentimentTally sentimentAgent of
           Inl e \<Rightarrow> Inl e
         | Inr s \<Rightarrow> Inr \<lparr>sentiment = s, entities = entityList entityAgent\<rparr>)"

section \<open>The application state and the runner (App.tsx, lines 272 to 346)\<close>

text \<open>
  The React state the runner reads and writes, and two logs that the program does not
  have: \<open>published\<close> holds every list of tasks that \<open>setAgents\<close> stored, oldest
  first, and \<open>calls\<close> every call of the provider. The provider answers the call
  number \<open>length (calls w)\<close>.
\<close>

datatype call = RunAgentCall Agent string | FollowUpCall string string

record AppState =
  agents :: "Agent list"
  content :: string
  isProcessing :: bool
  analysisResult :: "AnalysisResult option"
  followUpQuestions :: "string option"
  published :: "Agent list list"
  calls :: "call list"

record Locals =
  finalAgentsState :: "Agent list"
  agentOutputsForFollowup :: "string list"

text \<open>
  Modelled from the spec: the setter that the hook \<open>useLocalStorage\<close> returns
  (hooks/useLocalStorage.ts is missing). The runner publishes each new list of tasks with
  it, in order; a function argument is applied to the list published last, as with a
  state setter of React.
\<close>

definition setAgents :: "(Agent list \<Rightarrow> Agent list) \<Rightarrow> AppState \<Rightarrow> AppState" where
  "setAgents f w = w\<lparr>agents := f (agents w), published := published w @ [f (agents w)]\<rparr>"

text \<open>The update \<open>xs.map(a => a.id === i ? f(a) : a)\<close> of lines 287, 304, 305, 310 and 311.\<close>

definition mapById :: "string \<Rightarrow> (Agent \<Rightarrow> Agent) \<Rightarrow> Agent list \<Rightarrow> Agent list" where
  "mapById i f xs = map (\<lambda>a. if agent_id a = i then f a else a) xs"

definition resetAgent :: "Agent \<Rightarrow> Agent" where
  "resetAgent a = a\<lparr>status := Pending, output := None, error := None, outputJson := JNull\<rparr>"

definition successfulUpdate :: "string \<Rightarrow> json \<Rightarrow> Agent \<Rightarrow> Agent" where
  "successfulUpdate text j a = a\<lparr>status := Success, output := Some text, outputJson := j, error := None\<rparr>"

definition errorUpdate :: "string \<Rightarrow> Agent \<Rightarrow> Agent" where
  "errorUpdate errorMessage a = a\<lparr>status := Error, error := Some errorMessage\<rparr>"

text \<open>Line 287 and the call of line 290: the agent is shown running, the provider is called.\<close>

definition startIteration :: "Agent \<Rightarrow> string \<Rightarrow> AppState \<Rightarrow> AppState" where
  "startIteration agent doc w =
     (setAgents (mapById (agent_id agent) (\<lambda>a. a\<lparr>status := Running\<rparr>)) w)
       \<lparr>calls := calls w @ [RunAgentCall agent doc]\<rparr>"

text \<open>Lines 291 to 305: what the runner does when the call of an agent returns a text.\<close>

definition onFulfilled ::
  "parser \<Rightarrow> Agent \<Rightarrow> string \<Rightarrow> Locals \<times> AppState \<Rightarrow> Locals \<times> AppState" where
  "onFulfilled JSON_parse agent text lw =
     (let l = fst lw; w = snd lw;
          pushed = agentOutputsForFollowup l
                     @ [''--- Agent: '' @ name agent @ '' ---'' @ [CHR 0x0A] @ text];
          upd = successfulUpdate text (extractOutputJson JSON_parse text)
      in (\<lparr>finalAgentsState = mapById (agent_id agent) upd (finalAgentsState l),
           agentOutputsForFollowup = pushed\<rparr>,
          setAgents (mapById (agent_id agent) upd) w))"

text \<open>Lines 307 to 312: what it does when the call throws; the loop ends there.\<close>

definition onRejected :: "Agent \<Rightarrow> thrown \<Rightarrow> Locals \<times> AppState \<Rightarrow> Locals \<times> AppState" where
  "onRejected agent e lw =
     (let l = fst lw; w = snd lw;
          errorMessage = (case e of ErrorInstance m \<Rightarrow> m
                                  | NotAnError \<Rightarrow> ''An unknown error occurred'');
          upd = errorUpdate errorMessage
      in (l\<lparr>finalAgentsState := mapById (agent_id agent) upd (finalAgentsState l)\<rparr>,
          setAgents (mapById (agent_id agent) upd) w))"

fun forLoop ::
  "provider \<Rightarrow> parser \<Rightarrow> string \<Rightarrow> Agent list \<Rightarrow> Locals \<times> AppState \<Rightarrow> Locals \<times> AppState" where
  "forLoop gen JSON_parse doc [] lw = lw"
| "forLoop gen JSON_parse doc (agent # rest) lw =
     (let w1 = startIteration agent doc (snd lw)
      in case runAgent gen (length (calls (snd lw))) agent doc of
           Inr text \<Rightarrow> forLoop gen JSON_parse doc rest (onFulfilled JSON_parse agent text (fst lw, w1))
         | Inl e \<Rightarrow> onRejected agent e (fst lw, w1))"

text \<open>Lines 316 to 334: the analysis is stored when it has a tally or an entity.\<close>

definition aggregate :: "Agent list \<Rightarrow> AppState \<Rightarrow> thrown + AppState" where
  "aggregate fin w =
     (let successfulAgents = filter (\<lambda>a. status a = Success) fin
      in if length successfulAgents > 0 then
           (case newAnalysis successfulAgents of
              Inl e \<Rightarrow> Inl e
            | Inr r \<Rightarrow>
                if sentiment r \<noteq> None
                   \<or> (case entities r of Some es \<Rightarrow> length es > 0 | None \<Rightarrow> False)
                then Inr (w\<lparr>analysisResult := Some r\<rparr>)
                else Inr w)
         else Inr w)"

text \<open>Lines 336 to 343: the follow-up questions; a failure is logged and nothing else.\<close>

definition followUp :: "provider \<Rightarrow> string \<Rightarrow> Locals \<Rightarrow> AppState \<Rightarrow> AppState" where
  "followUp gen doc l w =
     (if length (agentOutputsForFollowup l) > 0 then
        (let joined = join [CHR 0x0A, CHR 0x0A] (agentOutputsForFollowup l);
             w1 = w\<lparr>calls := calls w @ [FollowUpCall doc joined]\<rparr>
         in case generateFollowUpQuestions gen (length (calls w)) doc joined of
              Inr questions \<Rightarrow> w1\<lparr>followUpQuestions := Some questions\<rparr>
            | Inl e \<Rightarrow> w1)
      else w)"

text \<open>Lines 274 to 282: the reset of the state and of every agent.\<close>

definition prologue :: "AppState \<Rightarrow> Locals \<times> AppState" where
  "prologue w0 =
     (let w1 = w0\<lparr>isProcessing := True, analysisResult := None, followUpQuestions := None\<rparr>;
          agentsToRun = map resetAgent (agents w0)
      in (\<lparr>finalAgentsState = agentsToRun, agentOutputsForFollowup = []\<rparr>,
          setAgents (\<lambda>prev. agentsToRun) w1))"

text \<open>
  Lines 316 to 345, after the loop. The result is the value thrown, if any, and the state
  left. A throw of the aggregation is not caught: the lines after it do not run.
\<close>

definition epilogue :: "provider \<Rightarrow> string \<Rightarrow> Locals \<times> AppState \<Rightarrow> thrown option \<times> AppState" where
  "epilogue gen doc lw =
     (case aggregate (finalAgentsState (fst lw)) (snd lw) of
        Inl e \<Rightarrow> (Some e, snd lw)
      | Inr w4 \<Rightarrow> (None, (followUp gen doc (fst lw) w4)\<lparr>isProcessing := False\<rparr>))"

definition runWorkflow :: "provider \<Rightarrow> parser \<Rightarrow> AppState \<Rightarrow> thrown option \<times> AppState" where
  "runWorkflow gen JSON_parse w0 =
     (if content w0 = [] \<or> length (agents w0) = 0 then (None, w0)
      else epilogue gen (content w0)
             (forLoop gen JSON_parse (content w0) (map resetAgent (agents w0)) (prologue w0)))"

section \<open>Runs that overlap\<close>

text \<open>
  Lines 124 to 134 and 194 to 204: loading a pasted document resets the state of the
  document, \<open>isProcessing\<close> included, and leaves the agents as they are. Only the
  fields the runner uses are modelled. \<open>trim\<close> leaves nothing of a text exactly when
  every character is white space.
\<close>

definition resetDocumentState :: "AppState \<Rightarrow> AppState" where
  "resetDocumentState w =
     w\<lparr>content := [], analysisResult := None, isProcessing := False, followUpQuestions := None\<rparr>"

definition isWhiteSpace :: "char \<Rightarrow> bool" where
  "isWhiteSpace c = ((of_char c :: nat) \<in> {9, 10, 11, 12, 13, 32, 160})"

definition handlePasteLoad :: "string \<Rightarrow> AppState \<Rightarrow> AppState" where
  "handlePasteLoad pastedContent w =
     (if list_all isWhiteSpace pastedContent then w
      else (resetDocumentState w)\<lparr>content := pastedContent\<rparr>)"

text \<open>Line 551: the run button is disabled in these states.\<close>

definition runDisabled :: "AppState \<Rightarrow> bool" where
  "runDisabled w = (isProcessing w \<or> length (agents w) = 0 \<or> content w = [])"

text \<open>
  A run that waits for the answer to the call of an agent: its local variables, the
  agent, the agents still to run and the document it captured. \<open>startRun\<close> is
  \<open>runWorkflow\<close> up to its first \<open>await\<close> (lines 273 to 290); \<open>clickRun\<close> is a click
  on the button. When the answer arrives the run goes on with \<open>onFulfilled\<close>.
\<close>

record Suspended =
  locals :: Locals
  awaited :: Agent
  remaining :: "Agent list"
  document :: string

definition startRun :: "AppState \<Rightarrow> Suspended option \<times> AppState" where
  "startRun w =
     (if content w = [] \<or> length (agents w) = 0 then (None, w)
      else (case map resetAgent (agents w) of
              [] \<Rightarrow> (None, snd (prologue w))
            | agent # rest \<Rightarrow>
                (Some \<lparr>locals = fst (prologue w), awaited = agent, remaining = rest,
                       document = content w\<rparr>,
                 startIteration agent (content w) (snd (prologue w)))))"

definition clickRun :: "AppState \<Rightarrow> Suspended option \<times> AppState" where
  "clickRun w = (if runDisabled w then (None, w) else startRun w)"

section \<open>Properties of a task and of a run\<close>

text \<open>
  The message of \<open>runAgent\<close> for an agent whose call failed (geminiService.ts, line 35).
\<close>

definition failureMessage :: "Agent \<Rightarrow> string" where
  "failureMessage a = ''Agent '' @ [CHR 0x22] @ name a @ [CHR 0x22] @ '' failed to execute.''"

text \<open>A task as the reset leaves it.\<close>

definition pendingNull :: "Agent \<Rightarrow> bool" where
  "pendingNull a =
     (status a = Pending \<and> output a = None \<and> error a = None \<and> outputJson a = JNull)"


definition succeeded :: "Agent \<Rightarrow> bool" where
  "succeeded a = (status a = Success \<and> output a \<noteq> None \<and> error a = None)"

fun isAgentCall :: "call \<Rightarrow> bool" where
  "isAgentCall (RunAgentCall a d) = True"
| "isAgentCall (FollowUpCall d t) = False"

section \<open>Concrete inputs\<close>

text \<open>
  Three agents left over from an earlier run, a document, and providers and decoders
  small enough to evaluate.
\<close>

definition sample_agent :: "string \<Rightarrow> string \<Rightarrow> Agent" where
  "sample_agent i n =
     \<lparr>agent_id = i, name = n, prompt = ''Analyse.'', status = Success,
      model = ''gemini-2.5-flash'', output = Some ''stale'', error = None,
      outputJson = JNum 7\<rparr>"

definition sample_state :: AppState where
  "sample_state =
     \<lparr>agents = [sample_agent ''agent-1'' ''Sentiment Analyzer'',
                sample_agent ''agent-2'' ''Entity Extractor'',
                sample_agent ''agent-3'' ''Summarizer''],
      content = ''Acme ships.'', isProcessing = False, analysisResult = None,
      followUpQuestions = None, published = [], calls = []\<rparr>"


definition always_ok :: provider where
  "always_ok k m c = Some ''ok''"

definition toy_parse :: parser where
  "toy_parse s =
     (if s = ''[]'' then Some (JArr []) else if s = ''{}'' then Some (JObj []) else None)"

definition sample_text :: string where
  "sample_text = ''See: '' @ fence_open @ ''[]'' @ fence_close"

definition sample_more :: string where
  "sample_more = '' and '' @ fence_open @ ''{}'' @ fence_close"

text \<open>
  The tasks the aggregation reads (lines 316 to 319): the first task with the status
  \<open>Success\<close> that has the name of the role.
\<close>

definition sentimentAgentOf :: "Agent list \<Rightarrow> Agent option" where
  "sentimentAgentOf fin =
     find (\<lambda>a. name a = ''Sentiment Analyzer'') (filter (\<lambda>a. status a = Success) fin)"

definition entityAgentOf :: "Agent list \<Rightarrow> Agent option" where
  "entityAgentOf fin =
     find (\<lambda>a. name a = ''Entity Extractor'') (filter (\<lambda>a. status a = Success) fin)"

text \<open>A tally with exactly one bucket at 1 and the others at 0.\<close>

definition oneHot :: "Tally \<Rightarrow> bool" where
  "oneHot t =
     ((positive t = 1 \<and> negative t = 0 \<and> neutral t = 0)
      \<or> (positive t = 0 \<and> negative t = 1 \<and> neutral t = 0)
      \<or> (positive t = 0 \<and> negative t = 0 \<and> neutral t = 1))"

text \<open>A finished task with a given name and structured output.\<close>

definition done_task :: "string \<Rightarrow> string \<Rightarrow> json \<Rightarrow> Agent" where
  "done_task i n j =
     \<lparr>agent_id = i, name = n, prompt = ''Analyse.'', status = Success,
      model = ''gemini-2.5-flash'', output = Some ''text'', error = None, outputJson = j\<rparr>"

definition acme :: json where
  "acme = JObj [(''name'', JStr ''Acme''), (''type'', JStr ''Org'')]"

text \<open>
  A reply whose fenced block decodes to an object with an own property \<open>toString\<close> in
  its field \<open>sentiment\<close>, and a state with the sentiment task alone.
\<close>

definition quoted :: "string \<Rightarrow> string" where
  "quoted s = [CHR 0x22] @ s @ [CHR 0x22]"

definition toString_body :: string where
  "toString_body = ''{'' @ quoted ''sentiment'' @ '':{'' @ quoted ''toString'' @ '':1}}''"

definition toString_reply :: provider where
  "toString_reply k m c = Some (fence_open @ toString_body @ fence_close)"

definition toString_parse :: parser where
  "toString_parse s =
     (if s = toString_body then Some (JObj [(''sentiment'', JObj [(''toString'', JNum 1)])])
      else None)"

definition sentiment_only :: AppState where
  "sentiment_only = sample_state\<lparr>agents := [sample_agent ''agent-1'' ''Sentiment Analyzer'']\<rparr>"

text \<open>
  Two runs that overlap on the sample state: the first run is started, a new document
  is loaded while its first call is in flight, a second run is started, and then the
  answer to the first call arrives.
\<close>

definition run_A :: Suspended where
  "run_A = \<lparr>locals = fst (prologue sample_state),
             awaited = resetAgent (sample_agent ''agent-1'' ''Sentiment Analyzer''),
             remaining = [resetAgent (sample_agent ''agent-2'' ''Entity Extractor''),
                          resetAgent (sample_agent ''agent-3'' ''Summarizer'')],
             document = ''Acme ships.''\<rparr>"

definition after_A :: AppState where
  "after_A = startIteration (awaited run_A) ''Acme ships.'' (snd (prologue sample_state))"

definition loaded_doc :: AppState where
  "loaded_doc = handlePasteLoad ''New text.'' after_A"

definition run_B :: Suspended where
  "run_B = \<lparr>locals = fst (prologue loaded_doc), awaited = awaited run_A,
             remaining = remaining run_A, document = ''New text.''\<rparr>"

definition after_B :: AppState where
  "after_B = startIteration (awaited run_B) ''New text.'' (snd (prologue loaded_doc))"

definition stale_result :: "Locals \<times> AppState" where
  "stale_result = onFulfilled toy_parse (awaited run_A) ''old answer'' (locals run_A, after_B)"



section \<open>Lemmas on the extraction\<close>

lemma fence_close_nonempty: "fence_close \<noteq> []"
  by (simp add: fence_close_def)

lemma fence_open_nonempty: "fence_open \<noteq> []"
  by (simp add: fence_open_def)

lemma lazy_group_split: "lazy_group r = map_option fst (split_at_first fence_close r)"
  by (induction r) (auto simp: fence_close_nonempty option.map_comp comp_def split_def)

lemma lazy_group_tl: "lazy_group (c # cs) = None \<Longrightarrow> lazy_group cs = None"
  by (auto split: if_splits)

lemma lazy_group_drop: "lazy_group r = None \<Longrightarrow> lazy_group (drop n r) = None"
proof (induction n arbitrary: r)
  case 0
  then show ?case by simp
next
  case (Suc n)
  show ?case
  proof (cases r)
    case Nil
    then show ?thesis by simp
  next
    case (Cons c cs)
    with Suc.prems have "lazy_group cs = None" by (simp add: lazy_group_tl)
    then show ?thesis using Suc.IH Cons by simp
  qed
qed

lemma regex_match_none:
  "(\<And>n. lazy_group (drop (n + length fence_open) s) = None) \<Longrightarrow> regex_match s = None"
proof (induction s)
  case Nil
  then show ?case by simp
next
  case (Cons c cs)
  have here: "match_here (c # cs) = None"
    using Cons.prems [of 0] by (simp add: match_here_def)
  have "\<And>n. lazy_group (drop (n + length fence_open) cs) = None"
    using Cons.prems [of "Suc n" for n] by simp
  then have "regex_match cs = None" by (rule Cons.IH)
  with here show ?case by simp
qed

lemma regex_match_first_block: "regex_match s = first_block s"
proof (induction s)
  case Nil
  then show ?case by (simp add: first_block_def fence_open_nonempty)
next
  case (Cons c cs)
  show ?case
  proof (cases "prefix fence_open (c # cs)")
    case True
    let ?r = "drop (length fence_open) (c # cs)"
    have fb: "first_block (c # cs) = lazy_group ?r"
      using True by (simp add: first_block_def lazy_group_split)
    show ?thesis
    proof (cases "lazy_group ?r")
      case None
      have "\<And>n. lazy_group (drop (n + length fence_open) cs) = None"
      proof -
        fix n
        have "drop (n + length fence_open) cs = drop (Suc n) ?r"
          by (simp add: add.commute)
        then show "lazy_group (drop (n + length fence_open) cs) = None"
          using lazy_group_drop [OF None, of "Suc n"] by simp
      qed
      then have "regex_match cs = None" by (rule regex_match_none)
      then show ?thesis using None fb True by (simp add: match_here_def)
    next
      case (Some g)
      then show ?thesis using fb True by (simp add: match_here_def)
    qed
  next
    case False
    then have "first_block (c # cs) = first_block cs"
      by (simp add: first_block_def split: option.splits)
    then show ?thesis using False Cons.IH by (simp add: match_here_def)
  qed
qed

lemma split_at_first_length:
  "split_at_first d s = Some (x, r) \<Longrightarrow> length d \<le> length s"
proof (induction s arbitrary: x)
  case Nil
  then show ?case by (simp split: if_splits)
next
  case (Cons c cs)
  then show ?case by (auto split: if_splits dest: prefix_length_le)
qed

lemma split_at_first_append:
  "split_at_first d s = Some (x, r) \<Longrightarrow> d \<noteq> [] \<Longrightarrow> split_at_first d (s @ t) = Some (x, r @ t)"
proof (induction s arbitrary: x)
  case Nil
  then show ?case by simp
next
  case (Cons c cs)
  show ?case
  proof (cases "prefix d (c # cs)")
    case True
    then have "prefix d ((c # cs) @ t)" by (metis prefix_prefix)
    moreover have "length d \<le> length (c # cs)" using True by (rule prefix_length_le)
    then have "drop (length d) ((c # cs) @ t) = drop (length d) (c # cs) @ t"
      by (metis drop_append diff_is_0_eq drop_0)
    ultimately show ?thesis using True Cons.prems by auto
  next
    case False
    from Cons.prems False obtain x' where x': "split_at_first d cs = Some (x', r)" "x = c # x'"
      by auto
    have "length d \<le> length cs" using x'(1) by (rule split_at_first_length)
    then have "\<not> prefix d ((c # cs) @ t)"
      using False by (metis append_Cons length_Cons le_SucI prefix_def prefix_length_prefix prefixI)
    then show ?thesis using Cons.IH [OF x'(1) Cons.prems(2)] x'(2) by simp
  qed
qed

lemma first_block_append:
  assumes "first_block s = Some b"
  shows "first_block (s @ t) = Some b"
proof -
  from assms obtain x rest y rest'
    where op: "split_at_first fence_open s = Some (x, rest)"
      and cl: "split_at_first fence_close rest = Some (y, rest')" and b: "b = y"
    by (auto simp: first_block_def split: option.splits)
  have "split_at_first fence_open (s @ t) = Some (x, rest @ t)"
    using op fence_open_nonempty by (rule split_at_first_append)
  moreover have "split_at_first fence_close (rest @ t) = Some (y, rest' @ t)"
    using cl fence_close_nonempty by (rule split_at_first_append)
  ultimately show ?thesis using b by (simp add: first_block_def)
qed

section \<open>Lemmas on the runner\<close>

lemma mapById_distinct:
  "distinct (map agent_id (pre @ a # post)) \<Longrightarrow>
   mapById (agent_id a) f (pre @ a # post) = pre @ f a # post"
  by (auto simp: mapById_def image_iff intro!: map_idI)

lemma mapById_distinct':
  "distinct (map agent_id (pre @ a # post)) \<Longrightarrow> agent_id b = agent_id a \<Longrightarrow>
   mapById (agent_id a) f (pre @ b # post) = pre @ f b # post"
  by (auto simp: mapById_def image_iff intro!: map_idI)

lemma iteration_start:
  assumes "distinct (map agent_id (pre @ a # rest))" and "agents w = pre @ a # rest"
  shows "startIteration a doc w =
           w\<lparr>agents := pre @ a\<lparr>status := Running\<rparr> # rest,
             published := published w @ [pre @ a\<lparr>status := Running\<rparr> # rest],
             calls := calls w @ [RunAgentCall a doc]\<rparr>"
  using assms by (simp add: startIteration_def setAgents_def mapById_distinct)

lemma iteration_fulfilled:
  assumes "distinct (map agent_id (pre @ a # rest))" and "agents w = pre @ a # rest"
    and "finalAgentsState l = pre @ a # rest"
  shows "onFulfilled P a text (l, startIteration a doc w) =
           (\<lparr>finalAgentsState = pre @ successfulUpdate text (extractOutputJson P text) a # rest,
             agentOutputsForFollowup = agentOutputsForFollowup l
                @ [''--- Agent: '' @ name a @ '' ---'' @ [CHR 0x0A] @ text]\<rparr>,
            w\<lparr>agents := pre @ successfulUpdate text (extractOutputJson P text) a # rest,
              published := published w @ [pre @ a\<lparr>status := Running\<rparr> # rest,
                 pre @ successfulUpdate text (extractOutputJson P text) a # rest],
              calls := calls w @ [RunAgentCall a doc]\<rparr>)"
proof -
  have "mapById (agent_id a) f (pre @ a\<lparr>status := Running\<rparr> # rest)
          = pre @ f (a\<lparr>status := Running\<rparr>) # rest" for f
    using assms(1) by (rule mapById_distinct') simp
  then show ?thesis
    using assms
    by (simp add: iteration_start [OF assms(1,2)] onFulfilled_def setAgents_def
        mapById_distinct successfulUpdate_def Let_def)
qed

lemma iteration_rejected:
  assumes "distinct (map agent_id (pre @ a # rest))" and "agents w = pre @ a # rest"
    and "finalAgentsState l = pre @ a # rest"
  shows "onRejected a (ErrorInstance m) (l, startIteration a doc w) =
           (l\<lparr>finalAgentsState := pre @ errorUpdate m a # rest\<rparr>,
            w\<lparr>agents := pre @ errorUpdate m (a\<lparr>status := Running\<rparr>) # rest,
              published := published w @ [pre @ a\<lparr>status := Running\<rparr> # rest,
                 pre @ errorUpdate m (a\<lparr>status := Running\<rparr>) # rest],
              calls := calls w @ [RunAgentCall a doc]\<rparr>)"
proof -
  have "mapById (agent_id a) f (pre @ a\<lparr>status := Running\<rparr> # rest)
          = pre @ f (a\<lparr>status := Running\<rparr>) # rest" for f
    using assms(1) by (rule mapById_distinct') simp
  then show ?thesis
    using assms
    by (simp add: iteration_start [OF assms(1,2)] onRejected_def setAgents_def
        mapById_distinct Let_def)
qed


lemma agent_id_successfulUpdate [simp]: "agent_id (successfulUpdate text j a) = agent_id a"
  by (simp add: successfulUpdate_def)


lemma aggregate_keeps:
  "aggregate fin w = Inr w' \<Longrightarrow>
   agents w' = agents w \<and> calls w' = calls w \<and> published w' = published w
     \<and> followUpQuestions w' = followUpQuestions w"
  by (auto simp: aggregate_def Let_def split: if_splits sum.splits)

lemma followUp_keeps:
  "agents (followUp gen doc l w) = agents w \<and> published (followUp gen doc l w) = published w
     \<and> filter isAgentCall (calls (followUp gen doc l w)) = filter isAgentCall (calls w)"
  by (simp add: followUp_def Let_def split: sum.splits)

lemma epilogue_keeps:
  "agents (snd (epilogue gen doc lw)) = agents (snd lw)
     \<and> published (snd (epilogue gen doc lw)) = published (snd lw)
     \<and> filter isAgentCall (calls (snd (epilogue gen doc lw))) = filter isAgentCall (calls (snd lw))"
  by (auto simp: epilogue_def followUp_keeps split: sum.splits dest: aggregate_keeps)


lemma prologue_state:
  "agents (snd (prologue w0)) = map resetAgent (agents w0)"
  "finalAgentsState (fst (prologue w0)) = map resetAgent (agents w0)"
  "agentOutputsForFollowup (fst (prologue w0)) = []"
  "calls (snd (prologue w0)) = calls w0"
  "published (snd (prologue w0)) = published w0 @ [map resetAgent (agents w0)]"
  by (simp_all add: prologue_def setAgents_def Let_def)

lemma resetAgent_fields [simp]:
  "agent_id (resetAgent a) = agent_id a" "name (resetAgent a) = name a"
  "model (resetAgent a) = model a" "prompt (resetAgent a) = prompt a"
  "status (resetAgent a) = Pending" "output (resetAgent a) = None"
  "error (resetAgent a) = None" "outputJson (resetAgent a) = JNull"
  by (simp_all add: resetAgent_def)

lemma forLoop_calls_prefix:
  "\<exists>more. calls (snd (forLoop gen P doc rest lw)) = calls (snd lw) @ more
     \<and> (\<forall>c \<in> set more. isAgentCall c)"
proof (induction rest arbitrary: lw)
  case Nil
  then show ?case by simp
next
  case (Cons a rest)
  show ?case
  proof (cases "runAgent gen (length (calls (snd lw))) a doc")
    case (Inl e)
    then show ?thesis
      by (simp add: onRejected_def startIteration_def setAgents_def Let_def)
  next
    case (Inr t)
    obtain more where
      "calls (snd (forLoop gen P doc rest (onFulfilled P a t (fst lw, startIteration a doc (snd lw)))))
         = calls (snd (onFulfilled P a t (fst lw, startIteration a doc (snd lw)))) @ more"
      "\<forall>c \<in> set more. isAgentCall c"
      using Cons.IH by blast
    then show ?thesis using Inr
      by (simp add: onFulfilled_def startIteration_def setAgents_def Let_def)
  qed
qed

lemma runAgent_throws:
  "runAgent gen k a doc = Inl e \<Longrightarrow> e = ErrorInstance (failureMessage a)"
  by (auto simp: runAgent_def failureMessage_def split: option.splits)







lemma forLoop_all_succeed:
  assumes "\<forall>k m c. gen k m c \<noteq> None"
    and "\<forall>a \<in> set (agents (snd lw)). succeeded a \<or> agent_id a \<in> agent_id ` set rest"
  shows "\<forall>a \<in> set (agents (snd (forLoop gen P doc rest lw))). succeeded a"
  using assms(2)
proof (induction rest arbitrary: lw)
  case Nil
  then show ?case by simp
next
  case (Cons a rest)
  obtain t where "gen (length (calls (snd lw))) (model a) (fullPrompt doc (prompt a)) = Some t"
    using assms(1) by fastforce
  then have t: "runAgent gen (length (calls (snd lw))) a doc = Inr t"
    by (simp add: runAgent_def)
  let ?lw' = "onFulfilled P a t (fst lw, startIteration a doc (snd lw))"
  have ag: "agents (snd ?lw')
      = mapById (agent_id a) (successfulUpdate t (extractOutputJson P t))
          (mapById (agent_id a) (\<lambda>a. a\<lparr>status := Running\<rparr>) (agents (snd lw)))"
    by (simp add: onFulfilled_def startIteration_def setAgents_def Let_def)
  have "\<forall>x \<in> set (agents (snd ?lw')). succeeded x \<or> agent_id x \<in> agent_id ` set rest"
    unfolding ag using Cons.prems
    by (auto simp: mapById_def succeeded_def successfulUpdate_def)
  then have "\<forall>x \<in> set (agents (snd (forLoop gen P doc rest ?lw'))). succeeded x"
    by (rule Cons.IH)
  then show ?case using t by simp
qed

lemma forLoop_length:
  "length (agents (snd (forLoop gen P doc rest lw))) = length (agents (snd lw))"
proof (induction rest arbitrary: lw)
  case Nil
  then show ?case by simp
next
  case (Cons a rest)
  show ?case
  proof (cases "runAgent gen (length (calls (snd lw))) a doc")
    case (Inl e)
    then show ?thesis
      by (simp add: onRejected_def startIteration_def setAgents_def mapById_def Let_def)
  next
    case (Inr t)
    have "length (agents (snd (onFulfilled P a t (fst lw, startIteration a doc (snd lw)))))
            = length (agents (snd lw))"
      by (simp add: onFulfilled_def startIteration_def setAgents_def mapById_def Let_def)
    then show ?thesis using Inr Cons.IH by simp
  qed
qed

lemma forLoop_published_prefix:
  "\<exists>later. published (snd (forLoop gen P doc rest lw)) = published (snd lw) @ later"
proof (induction rest arbitrary: lw)
  case Nil
  then show ?case by simp
next
  case (Cons a rest)
  show ?case
  proof (cases "runAgent gen (length (calls (snd lw))) a doc")
    case (Inl e)
    then show ?thesis
      by (simp add: onRejected_def startIteration_def setAgents_def Let_def)
  next
    case (Inr t)
    obtain later where
      "published (snd (forLoop gen P doc rest (onFulfilled P a t (fst lw, startIteration a doc (snd lw)))))
         = published (snd (onFulfilled P a t (fst lw, startIteration a doc (snd lw)))) @ later"
      using Cons.IH by blast
    then show ?thesis using Inr
      by (simp add: onFulfilled_def startIteration_def setAgents_def Let_def)
  qed
qed


section \<open>Lemmas on the aggregation\<close>

lemma find_Some_nonempty: "find P xs = Some a \<Longrightarrow> xs \<noteq> []"
  by (cases xs) auto

lemma sentimentTally_oneHot: "sentimentTally x = Inr (Some t) \<Longrightarrow> oneHot t"
  by (auto simp: sentimentTally_def oneHot_def Let_def split: option.splits if_splits)

lemma newAnalysis_oneHot: "newAnalysis xs = Inr r \<Longrightarrow> sentiment r = Some t \<Longrightarrow> oneHot t"
  by (auto simp: newAnalysis_def Let_def split: sum.splits dest: sentimentTally_oneHot)

lemma sentimentTally_truthy:
  assumes "outputJson a = JObj kvs" and "map_of kvs ''sentiment'' = Some v"
    and "truthy v" and "js_String v = Some str"
  shows "sentimentTally (Some a)
           = Inr (Some (if toLowerCase str = ''positive''
                        then \<lparr>positive = 1, negative = 0, neutral = 0\<rparr>
                        else if toLowerCase str = ''negative''
                        then \<lparr>positive = 0, negative = 1, neutral = 0\<rparr>
                        else \<lparr>positive = 0, negative = 0, neutral = 1\<rparr>))"
  using assms by (simp add: sentimentTally_def Let_def)

lemma wellTypedEntity_iff:
  "wellTypedEntity e
     \<longleftrightarrow> (\<exists>kvs n t. e = JObj kvs \<and> map_of kvs ''name'' = Some (JStr n)
                      \<and> map_of kvs ''type'' = Some (JStr t))"
proof (cases e)
  case (JObj kvs)
  then show ?thesis
    by (auto simp: wellTypedEntity_def split: option.splits json.splits)
qed (simp_all add: wellTypedEntity_def)

section \<open>Lemmas on the follow-up questions\<close>

lemma toString_reply_extract:
  "extractOutputJson toString_parse (fence_open @ toString_body @ fence_close)
     = JObj [(''sentiment'', JObj [(''toString'', JNum 1)])]"
  by (simp add: extractOutputJson_def match_here_def toString_parse_def toString_body_def
      quoted_def fence_open_def fence_close_def)

lemma forLoop_keeps_derived:
  "analysisResult (snd (forLoop gen P doc rest lw)) = analysisResult (snd lw)
     \<and> followUpQuestions (snd (forLoop gen P doc rest lw)) = followUpQuestions (snd lw)
     \<and> isProcessing (snd (forLoop gen P doc rest lw)) = isProcessing (snd lw)
     \<and> content (snd (forLoop gen P doc rest lw)) = content (snd lw)"
proof (induction rest arbitrary: lw)
  case Nil
  then show ?case by simp
next
  case (Cons a rest)
  show ?case
  proof (cases "runAgent gen (length (calls (snd lw))) a doc")
    case (Inl e)
    then show ?thesis
      by (simp add: onRejected_def startIteration_def setAgents_def Let_def)
  next
    case (Inr t)
    then show ?thesis
      using Cons.IH [of "onFulfilled P a t (fst lw, startIteration a doc (snd lw))"]
      by (simp add: onFulfilled_def startIteration_def setAgents_def Let_def)
  qed
qed

lemma forLoop_outputs_iff_success:
  assumes "distinct (map agent_id (pre @ rest))" and "agents w = pre @ rest"
    and "finalAgentsState l = pre @ rest" and "\<forall>a \<in> set rest. status a = Pending"
    and "(agentOutputsForFollowup l \<noteq> []) = (\<exists>a \<in> set pre. status a = Success)"
  shows "(agentOutputsForFollowup (fst (forLoop gen P doc rest (l, w))) \<noteq> [])
           = (\<exists>a \<in> set (agents (snd (forLoop gen P doc rest (l, w)))). status a = Success)
         \<and> finalAgentsState (fst (forLoop gen P doc rest (l, w)))
           = agents (snd (forLoop gen P doc rest (l, w)))"
  using assms
proof (induction rest arbitrary: pre l w)
  case Nil
  then show ?case by simp
next
  case (Cons a rest)
  show ?case
  proof (cases "runAgent gen (length (calls w)) a doc")
    case (Inl e)
    then have e: "e = ErrorInstance (failureMessage a)" by (rule runAgent_throws)
    have "errorUpdate (failureMessage a) (a\<lparr>status := Running\<rparr>) = errorUpdate (failureMessage a) a"
      by (simp add: errorUpdate_def)
    then show ?thesis
      using Inl e iteration_rejected [OF Cons.prems(1,2,3)] Cons.prems(4,5)
      by (auto simp: errorUpdate_def)
  next
    case (Inr t)
    define a' where "a' = successfulUpdate t (extractOutputJson P t) a"
    define l' where "l' = \<lparr>finalAgentsState = pre @ a' # rest,
       agentOutputsForFollowup = agentOutputsForFollowup l
          @ [''--- Agent: '' @ name a @ '' ---'' @ [CHR 0x0A] @ t]\<rparr>"
    define w' where "w' = w\<lparr>agents := pre @ a' # rest,
       published := published w @ [pre @ a\<lparr>status := Running\<rparr> # rest, pre @ a' # rest],
       calls := calls w @ [RunAgentCall a doc]\<rparr>"
    have step: "forLoop gen P doc (a # rest) (l, w) = forLoop gen P doc rest (l', w')"
      using Inr iteration_fulfilled [OF Cons.prems(1,2,3)]
      by (simp add: a'_def l'_def w'_def)
    have d: "distinct (map agent_id ((pre @ [a']) @ rest))"
      using Cons.prems(1) by (simp add: a'_def)
    have ag: "agents w' = (pre @ [a']) @ rest" by (simp add: w'_def)
    have fin: "finalAgentsState l' = (pre @ [a']) @ rest" by (simp add: l'_def)
    have pend: "\<forall>x \<in> set rest. status x = Pending" using Cons.prems(4) by simp
    have acc: "(agentOutputsForFollowup l' \<noteq> []) = (\<exists>x \<in> set (pre @ [a']). status x = Success)"
      by (simp add: l'_def a'_def successfulUpdate_def)
    show ?thesis
      unfolding step by (rule Cons.IH [OF d ag fin pend acc])
  qed
qed

text \<open>
  In a run that returns, on tasks with distinct ids: the follow-up questions are asked
  for exactly when a task has the status \<open>Success\<close> at the end, and without such a
  task no analysis is stored. A failure of that call leaves the tasks and the questions
  as they were.
\<close>

lemma followUp_iff_success_when_returning:
  assumes "content w0 \<noteq> []" and "agents w0 \<noteq> []"
    and "distinct (map agent_id (agents w0))"
    and "fst (runWorkflow gen P w0) = None"
  shows "(\<exists>d t. FollowUpCall d t \<in> set (drop (length (calls w0)) (calls (snd (runWorkflow gen P w0)))))
           = (\<exists>a \<in> set (agents (snd (runWorkflow gen P w0))). status a = Success)"
    and "\<not> (\<exists>a \<in> set (agents (snd (runWorkflow gen P w0))). status a = Success) \<Longrightarrow>
           analysisResult (snd (runWorkflow gen P w0)) = None"
proof -
  let ?as = "map resetAgent (agents w0)"
  let ?doc = "content w0"
  let ?lw = "forLoop gen P ?doc ?as (prologue w0)"
  have run: "runWorkflow gen P w0 = epilogue gen ?doc ?lw"
    using assms(1,2) by (simp add: runWorkflow_def)
  have d: "distinct (map agent_id ([] @ ?as))"
    using assms(3) by (simp add: comp_def)
  have loop: "(agentOutputsForFollowup (fst ?lw) \<noteq> [])
           = (\<exists>a \<in> set (agents (snd ?lw)). status a = Success)
         \<and> finalAgentsState (fst ?lw) = agents (snd ?lw)"
    using forLoop_outputs_iff_success [of "[]" ?as "snd (prologue w0)" "fst (prologue w0)" gen P ?doc, OF d]
    by (simp add: prologue_state)
  obtain w4 where w4: "aggregate (finalAgentsState (fst ?lw)) (snd ?lw) = Inr w4"
    using assms(4) run by (auto simp: epilogue_def split: sum.splits)
  have ep: "snd (runWorkflow gen P w0) = (followUp gen ?doc (fst ?lw) w4)\<lparr>isProcessing := False\<rparr>"
    using w4 run by (simp add: epilogue_def)
  have keep: "agents w4 = agents (snd ?lw)" "calls w4 = calls (snd ?lw)"
    using aggregate_keeps [OF w4] by simp_all
  obtain more where more: "calls (snd ?lw) = calls w0 @ more" "\<forall>c \<in> set more. isAgentCall c"
    using forLoop_calls_prefix [of gen P ?doc ?as "prologue w0"] by (auto simp: prologue_state)
  have ag: "agents (snd (runWorkflow gen P w0)) = agents (snd ?lw)"
    by (simp add: run epilogue_keeps)
  have "(\<exists>d t. FollowUpCall d t \<in> set (drop (length (calls w0)) (calls (snd (runWorkflow gen P w0)))))
          = (agentOutputsForFollowup (fst ?lw) \<noteq> [])"
    using more by (auto simp: ep keep followUp_def Let_def split: sum.splits)
  then show "(\<exists>d t. FollowUpCall d t \<in> set (drop (length (calls w0)) (calls (snd (runWorkflow gen P w0)))))
           = (\<exists>a \<in> set (agents (snd (runWorkflow gen P w0))). status a = Success)"
    using loop ag by simp
  have an: "analysisResult (snd ?lw) = None"
    by (simp add: forLoop_keeps_derived prologue_def setAgents_def Let_def)
  show "analysisResult (snd (runWorkflow gen P w0)) = None"
    if "\<not> (\<exists>a \<in> set (agents (snd (runWorkflow gen P w0))). status a = Success)"
  proof -
    have "filter (\<lambda>a. status a = Success) (finalAgentsState (fst ?lw)) = []"
      using that loop ag by (auto simp: filter_empty_conv)
    then have "w4 = snd ?lw" using w4 by (simp add: aggregate_def)
    then show ?thesis using an by (simp add: ep followUp_def Let_def split: sum.splits)
  qed
qed

lemma followUp_failure_is_silent:
  assumes "generateFollowUpQuestions gen (length (calls w)) doc
             (join [CHR 0x0A, CHR 0x0A] (agentOutputsForFollowup l)) = Inl e"
  shows "agents (followUp gen doc l w) = agents w
           \<and> followUpQuestions (followUp gen doc l w) = followUpQuestions w"
  using assms by (simp add: followUp_def Let_def)

section \<open>Lemmas on runs that overlap\<close>

lemma resetAgent_idem: "resetAgent (resetAgent a) = resetAgent a"
  by (simp add: resetAgent_def)

lemma resetAgent_running: "resetAgent (a\<lparr>status := Running\<rparr>) = resetAgent a"
  by (simp add: resetAgent_def)

lemma runWorkflow_startRun:
  assumes "startRun w = (Some s, w1)"
  shows "runWorkflow gen P w
           = epilogue gen (document s)
               (case runAgent gen (length (calls w)) (awaited s) (document s) of
                  Inr t \<Rightarrow> forLoop gen P (document s) (remaining s)
                             (onFulfilled P (awaited s) t (locals s, w1))
                | Inl e \<Rightarrow> onRejected (awaited s) e (locals s, w1))"
proof -
  from assms obtain z zs where zs: "agents w = z # zs" and c: "content w \<noteq> []"
    and s: "s = \<lparr>locals = fst (prologue w), awaited = resetAgent z,
                 remaining = map resetAgent zs, document = content w\<rparr>"
    and w1: "w1 = startIteration (resetAgent z) (content w) (snd (prologue w))"
    by (auto simp: startRun_def split: if_splits list.splits)
  show ?thesis
    using zs c by (simp add: s w1 runWorkflow_def prologue_state split: sum.splits)
qed

lemma sample_first_click: "clickRun sample_state = (Some run_A, after_A)"
  by (simp add: clickRun_def runDisabled_def startRun_def run_A_def after_A_def sample_state_def)

lemma paste_new_text:
  "handlePasteLoad ''New text.'' w = (resetDocumentState w)\<lparr>content := ''New text.''\<rparr>"
  by (simp add: handlePasteLoad_def isWhiteSpace_def)

lemma loaded_fields:
  "agents loaded_doc = agents after_A" "content loaded_doc = ''New text.''" "isProcessing loaded_doc = False"
  by (simp_all add: loaded_doc_def paste_new_text resetDocumentState_def)

lemma after_A_agents:
  "agents after_A = [(resetAgent (sample_agent ''agent-1'' ''Sentiment Analyzer''))\<lparr>status := Running\<rparr>,
      resetAgent (sample_agent ''agent-2'' ''Entity Extractor''),
      resetAgent (sample_agent ''agent-3'' ''Summarizer'')]"
  by (simp add: after_A_def run_A_def startIteration_def setAgents_def mapById_def prologue_def
      sample_state_def sample_agent_def resetAgent_def Let_def)

lemma sample_second_click: "clickRun (handlePasteLoad ''New text.'' after_A) = (Some run_B, after_B)"
proof -
  have "map resetAgent (agents loaded_doc) = awaited run_A # remaining run_A"
    by (simp add: loaded_fields after_A_agents run_A_def resetAgent_def)
  moreover have "agents loaded_doc \<noteq> []" by (simp add: loaded_fields after_A_agents)
  ultimately show ?thesis
    using loaded_fields
    by (simp add: clickRun_def runDisabled_def startRun_def run_B_def after_B_def
        loaded_doc_def [symmetric])
qed

lemma after_B_agents: "agents after_B = agents after_A"
  by (simp add: after_B_def run_B_def run_A_def startIteration_def setAgents_def mapById_def
      prologue_def loaded_fields after_A_agents sample_agent_def resetAgent_def Let_def)

text \<open>
  What the continuation of a run does to the state that a later run has left: the update
  goes to the task with the id, whichever run published it.
\<close>

lemma stale_completion_is_applied:
  assumes "clickRun w0 = (Some sA, w1)"
    and "clickRun (handlePasteLoad pasted w1) = (Some sB, w3)"
    and "distinct (map agent_id (agents w0))"
  shows "runWorkflow gen P w0
           = epilogue gen (document sA)
               (case runAgent gen (length (calls w0)) (awaited sA) (document sA) of
                  Inr r \<Rightarrow> forLoop gen P (document sA) (remaining sA)
                             (onFulfilled P (awaited sA) r (locals sA, w1))
                | Inl e \<Rightarrow> onRejected (awaited sA) e (locals sA, w1))
    \<and> awaited sB = awaited sA
    \<and> content w3 = pasted \<and> isProcessing w3
    \<and> agents w3 = (awaited sB)\<lparr>status := Running\<rparr> # remaining sB
    \<and> last (calls w3) = RunAgentCall (awaited sB) pasted
    \<and> agents (snd (onFulfilled P (awaited sA) t (locals sA, w3)))
        = successfulUpdate t (extractOutputJson P t) (awaited sB) # remaining sB
    \<and> calls (snd (onFulfilled P (awaited sA) t (locals sA, w3))) = calls w3
    \<and> content (snd (onFulfilled P (awaited sA) t (locals sA, w3))) = pasted"
proof -
  from assms(1) have s0: "startRun w0 = (Some sA, w1)"
    by (auto simp: clickRun_def split: if_splits)
  from s0 obtain z zs where zs: "agents w0 = z # zs"
    and sA: "sA = \<lparr>locals = fst (prologue w0), awaited = resetAgent z,
                 remaining = map resetAgent zs, document = content w0\<rparr>"
    and w1: "w1 = startIteration (resetAgent z) (content w0) (snd (prologue w0))"
    by (auto simp: startRun_def split: if_splits list.splits)
  define a where "a = resetAgent z"
  define rest where "rest = map resetAgent zs"
  have d: "distinct (map agent_id ([] @ a # rest))"
    using assms(3) zs by (simp add: a_def rest_def comp_def)
  have ag0: "agents (snd (prologue w0)) = [] @ a # rest"
    using zs by (simp add: prologue_state a_def rest_def)
  have w1': "w1 = (snd (prologue w0))\<lparr>agents := a\<lparr>status := Running\<rparr> # rest,
       published := published (snd (prologue w0)) @ [a\<lparr>status := Running\<rparr> # rest],
       calls := calls (snd (prologue w0)) @ [RunAgentCall a (content w0)]\<rparr>"
    using iteration_start [OF d ag0, of "content w0"] by (simp add: w1 a_def)
  have busy: "isProcessing w1" by (simp add: w1' prologue_def setAgents_def Let_def)
  let ?w2 = "handlePasteLoad pasted w1"
  from assms(2) have s2: "startRun ?w2 = (Some sB, w3)" and en: "\<not> runDisabled ?w2"
    by (auto simp: clickRun_def split: if_splits)
  have w2: "?w2 = (resetDocumentState w1)\<lparr>content := pasted\<rparr>"
    using en busy by (auto simp: handlePasteLoad_def runDisabled_def)
  have "agents ?w2 = agents w1" by (simp add: w2 resetDocumentState_def)
  then have ag2: "agents ?w2 = a\<lparr>status := Running\<rparr> # rest"
    by (simp add: w1')
  have c2: "content ?w2 = pasted" by (simp add: w2)
  have rs: "map resetAgent (agents ?w2) = a # rest"
    by (simp add: ag2 resetAgent_running a_def rest_def resetAgent_idem)
  from s2 have sB: "sB = \<lparr>locals = fst (prologue ?w2), awaited = a, remaining = rest,
                 document = pasted\<rparr>"
    and w3: "w3 = startIteration a pasted (snd (prologue ?w2))"
    using rs c2 by (auto simp: startRun_def split: if_splits)
  have ag2': "agents (snd (prologue ?w2)) = [] @ a # rest"
    using rs by (simp add: prologue_state)
  have w3': "w3 = (snd (prologue ?w2))\<lparr>agents := a\<lparr>status := Running\<rparr> # rest,
       published := published (snd (prologue ?w2)) @ [a\<lparr>status := Running\<rparr> # rest],
       calls := calls (snd (prologue ?w2)) @ [RunAgentCall a pasted]\<rparr>"
    using iteration_start [OF d ag2', of pasted] by (simp add: w3)
  have c3: "content w3 = pasted \<and> isProcessing w3"
    using c2 by (simp add: w3' prologue_def setAgents_def Let_def)
  have upd: "mapById (agent_id a) f (a\<lparr>status := Running\<rparr> # rest) = f (a\<lparr>status := Running\<rparr>) # rest" for f
    using mapById_distinct' [OF d, of "a\<lparr>status := Running\<rparr>" f] by simp
  have fin: "agents (snd (onFulfilled P a t (locals sA, w3)))
        = successfulUpdate t (extractOutputJson P t) a # rest"
    by (simp add: onFulfilled_def setAgents_def Let_def w3' upd successfulUpdate_def)
  have keep: "calls (snd (onFulfilled P a t (locals sA, w3))) = calls w3
     \<and> content (snd (onFulfilled P a t (locals sA, w3))) = content w3"
    by (simp add: onFulfilled_def setAgents_def Let_def)
  have aA: "awaited sA = a" by (simp add: sA a_def)
  have aB: "awaited sB = a" "remaining sB = rest" by (simp_all add: sB)
  have lastc: "last (calls w3) = RunAgentCall a pasted" by (simp add: w3')
  have agw3: "agents w3 = a\<lparr>status := Running\<rparr> # rest" by (simp add: w3')
  have big: "runWorkflow gen P w0
           = epilogue gen (document sA)
               (case runAgent gen (length (calls w0)) (awaited sA) (document sA) of
                  Inr r \<Rightarrow> forLoop gen P (document sA) (remaining sA)
                             (onFulfilled P (awaited sA) r (locals sA, w1))
                | Inl e \<Rightarrow> onRejected (awaited sA) e (locals sA, w1))"
    using s0 by (rule runWorkflow_startRun)
  have rest: "awaited sB = awaited sA
    \<and> content w3 = pasted \<and> isProcessing w3
    \<and> agents w3 = (awaited sB)\<lparr>status := Running\<rparr> # remaining sB
    \<and> last (calls w3) = RunAgentCall (awaited sB) pasted
    \<and> agents (snd (onFulfilled P (awaited sA) t (locals sA, w3)))
        = successfulUpdate t (extractOutputJson P t) (awaited sB) # remaining sB
    \<and> calls (snd (onFulfilled P (awaited sA) t (locals sA, w3))) = calls w3
    \<and> content (snd (onFulfilled P (awaited sA) t (locals sA, w3))) = pasted"
    using aA aB c3 agw3 lastc fin keep by simp
  show ?thesis using big rest by (rule conjI)
qed

section \<open>The claims on the runner\<close>







text \<open>
  Claim C3. When the document is empty or the list of tasks is empty the run returns at
  once: it throws nothing and leaves the state as it was, so no task changes, nothing is
  published, the provider is not called, and the analysis and the follow-up questions
  are untouched.
\<close>

theorem empty_input_is_noop:
  assumes "content w0 = [] \<or> agents w0 = []"
  shows "runWorkflow gen P w0 = (None, w0)"
  using assms by (auto simp: runWorkflow_def)

theorem empty_input_is_noop_witness:
  "(content (sample_state\<lparr>content := []\<rparr>) = [] \<or> agents (sample_state\<lparr>content := []\<rparr>) = [])
     \<and> runWorkflow always_ok toy_parse (sample_state\<lparr>content := []\<rparr>)
          = (None, sample_state\<lparr>content := []\<rparr>)
     \<and> (content (sample_state\<lparr>agents := []\<rparr>) = [] \<or> agents (sample_state\<lparr>agents := []\<rparr>) = [])
     \<and> runWorkflow always_ok toy_parse (sample_state\<lparr>agents := []\<rparr>)
          = (None, sample_state\<lparr>agents := []\<rparr>)"
proof -
  have h1: "content (sample_state\<lparr>content := []\<rparr>) = [] \<or> agents (sample_state\<lparr>content := []\<rparr>) = []"
    by simp
  have h2: "content (sample_state\<lparr>agents := []\<rparr>) = [] \<or> agents (sample_state\<lparr>agents := []\<rparr>) = []"
    by simp
  show ?thesis
    using h1 h2 empty_input_is_noop [OF h1, of always_ok toy_parse]
      empty_input_is_noop [OF h2, of always_ok toy_parse]
    by simp
qed

text \<open>
  Claim C8. On a non-empty document and a non-empty list of tasks, with a provider that
  answers every call, the run starts from the reset state (every task \<open>Pending\<close>, the
  three fields null) and ends with every task in the status \<open>Success\<close>, its \<open>output\<close>
  set and its \<open>error\<close> null.
\<close>

theorem all_succeed_when_provider_succeeds:
  assumes "content w0 \<noteq> []" and "agents w0 \<noteq> []"
    and "\<forall>k m c. gen k m c \<noteq> None"
  shows "(\<forall>a \<in> set (agents (snd (runWorkflow gen P w0))).
            status a = Success \<and> output a \<noteq> None \<and> error a = None)
    \<and> length (agents (snd (runWorkflow gen P w0))) = length (agents w0)
    \<and> (\<exists>later. published (snd (runWorkflow gen P w0))
                  = published w0 @ map resetAgent (agents w0) # later)
    \<and> (\<forall>a \<in> set (map resetAgent (agents w0)). pendingNull a)"
proof -
  let ?as = "map resetAgent (agents w0)"
  let ?doc = "content w0"
  let ?lw = "forLoop gen P ?doc ?as (prologue w0)"
  have run: "runWorkflow gen P w0 = epilogue gen ?doc ?lw"
    using assms(1,2) by (simp add: runWorkflow_def)
  have "\<forall>a \<in> set (agents (snd (prologue w0))). succeeded a \<or> agent_id a \<in> agent_id ` set ?as"
    by (simp add: prologue_state)
  with assms(3) have "\<forall>a \<in> set (agents (snd ?lw)). succeeded a"
    by (rule forLoop_all_succeed)
  then have c1: "\<forall>a \<in> set (agents (snd (runWorkflow gen P w0))).
            status a = Success \<and> output a \<noteq> None \<and> error a = None"
    by (simp add: run epilogue_keeps succeeded_def)
  have c2: "length (agents (snd (runWorkflow gen P w0))) = length (agents w0)"
    by (simp add: run epilogue_keeps forLoop_length prologue_state)
  obtain later where "published (snd ?lw) = published (snd (prologue w0)) @ later"
    using forLoop_published_prefix by blast
  then have c3: "\<exists>later. published (snd (runWorkflow gen P w0)) = published w0 @ ?as # later"
    by (simp add: run epilogue_keeps prologue_state)
  have c4: "\<forall>a \<in> set ?as. pendingNull a" by (simp add: pendingNull_def)
  show ?thesis using c1 c2 c3 c4 by blast
qed

theorem all_succeed_when_provider_succeeds_witness:
  "content sample_state \<noteq> [] \<and> agents sample_state \<noteq> []
     \<and> always_ok 0 ''gemini-2.5-flash'' ''x'' \<noteq> None
     \<and> length (agents (snd (runWorkflow always_ok toy_parse sample_state))) = 3
     \<and> map status (agents (snd (runWorkflow always_ok toy_parse sample_state)))
          = [Success, Success, Success]
     \<and> map output (agents (snd (runWorkflow always_ok toy_parse sample_state)))
          = [Some ''ok'', Some ''ok'', Some ''ok'']"
proof -
  have h1: "content sample_state \<noteq> []" by (simp add: sample_state_def)
  have h2: "agents sample_state \<noteq> []" by (simp add: sample_state_def)
  have h3: "\<forall>k m c. always_ok k m c \<noteq> None" by (simp add: always_ok_def)
  have len: "length (agents sample_state) = 3" by (simp add: sample_state_def)
  have run: "map status (agents (snd (runWorkflow always_ok toy_parse sample_state)))
          = [Success, Success, Success]
     \<and> map output (agents (snd (runWorkflow always_ok toy_parse sample_state)))
          = [Some ''ok'', Some ''ok'', Some ''ok'']"
    by (simp add: runWorkflow_def epilogue_keeps prologue_def sample_state_def sample_agent_def
        always_ok_def runAgent_def startIteration_def onFulfilled_def setAgents_def mapById_def
        successfulUpdate_def resetAgent_def Let_def)
  from all_succeed_when_provider_succeeds [OF h1 h2 h3, of toy_parse]
  show ?thesis using h1 h2 h3 len run by simp
qed

section \<open>The claim on the extraction\<close>

text \<open>
  Claim C4. For a decoder that rejects the empty text, as \<open>JSON.parse\<close> does, the
  extraction of the runner is the extraction of the specification: it returns the decoded
  text of the first fenced block, and null when there is no such block or its text does
  not decode. It is a total function: what the decoder throws is caught and becomes
  null. Text after the first block, further blocks included, does not change the result.
\<close>

theorem extraction_returns_first_block:
  assumes "JSON_parse [] = None"
  shows "extractOutputJson JSON_parse raw = spec_extract JSON_parse raw
    \<and> (first_block raw = None \<longrightarrow> extractOutputJson JSON_parse raw = JNull)
    \<and> (\<forall>body. first_block raw = Some body \<longrightarrow> JSON_parse body = None \<longrightarrow>
          extractOutputJson JSON_parse raw = JNull)
    \<and> (\<forall>body v. first_block raw = Some body \<longrightarrow> JSON_parse body = Some v \<longrightarrow>
          extractOutputJson JSON_parse raw = v)
    \<and> (\<forall>body more. first_block raw = Some body \<longrightarrow>
          extractOutputJson JSON_parse (raw @ more) = extractOutputJson JSON_parse raw)"
proof -
  have eq: "extractOutputJson JSON_parse s = spec_extract JSON_parse s" for s
    using assms
    by (auto simp: extractOutputJson_def spec_extract_def regex_match_first_block
        split: option.splits)
  have more: "extractOutputJson JSON_parse (raw @ more) = extractOutputJson JSON_parse raw"
    if "first_block raw = Some body" for body more
    using that first_block_append [OF that, of more] by (simp add: eq spec_extract_def)
  show ?thesis
    using eq [of raw] more by (simp add: spec_extract_def)
qed

theorem extraction_returns_first_block_witness:
  "toy_parse [] = None \<and> first_block sample_text = Some ''[]''
     \<and> toy_parse ''[]'' = Some (JArr [])
     \<and> extractOutputJson toy_parse sample_text = JArr []
     \<and> extractOutputJson toy_parse (sample_text @ sample_more) = JArr []"
proof -
  have h: "toy_parse [] = None" by (simp add: toy_parse_def)
  have fb: "first_block sample_text = Some ''[]''"
    by (simp add: first_block_def sample_text_def fence_open_def fence_close_def)
  have p: "toy_parse ''[]'' = Some (JArr [])" by (simp add: toy_parse_def)
  have a: "extractOutputJson toy_parse sample_text = JArr []"
    using extraction_returns_first_block [of toy_parse sample_text] h fb p by blast
  have "extractOutputJson toy_parse (sample_text @ sample_more)
          = extractOutputJson toy_parse sample_text"
    using extraction_returns_first_block [of toy_parse sample_text] h fb by blast
  then show ?thesis using h fb p a by simp
qed

section \<open>The claims on the aggregation\<close>

text \<open>
  Claim C5, amended. Let the first task with the status \<open>Success\<close> and the name
  \<open>Sentiment Analyzer\<close> have a structured output whose field \<open>sentiment\<close> is truthy
  (not null, false, 0 or the empty string) and converts to a string. Then the
  aggregation stores an analysis whose tally is chosen by that string in lower case:
  \<open>positive\<close> gives positive 1, \<open>negative\<close> gives negative 1, every other string gives
  neutral 1, the other buckets 0. Every tally the aggregation produces has exactly one
  bucket at 1.
\<close>

theorem sentiment_label_gives_tally:
  assumes "sentimentAgentOf fin = Some a"
    and "get_property (outputJson a) ''sentiment'' = Some v"
    and "truthy v" and "js_String v = Some str"
  shows "\<exists>r. aggregate fin w = Inr (w\<lparr>analysisResult := Some r\<rparr>)
           \<and> sentiment r
               = Some (if toLowerCase str = ''positive''
                       then \<lparr>positive = 1, negative = 0, neutral = 0\<rparr>
                       else if toLowerCase str = ''negative''
                       then \<lparr>positive = 0, negative = 1, neutral = 0\<rparr>
                       else \<lparr>positive = 0, negative = 0, neutral = 1\<rparr>)
           \<and> (\<forall>xs r' t. newAnalysis xs = Inr r' \<longrightarrow> sentiment r' = Some t \<longrightarrow> oneHot t)"
proof -
  let ?ok = "filter (\<lambda>a. status a = Success) fin"
  let ?t = "if toLowerCase str = ''positive''
                       then \<lparr>positive = 1, negative = 0, neutral = 0\<rparr>
                       else if toLowerCase str = ''negative''
                       then \<lparr>positive = 0, negative = 1, neutral = 0\<rparr>
                       else \<lparr>positive = 0, negative = 0, neutral = 1\<rparr>"
  obtain kvs where kvs: "outputJson a = JObj kvs" "map_of kvs ''sentiment'' = Some v"
    using assms(2) by (cases "outputJson a") auto
  have ne: "?ok \<noteq> []"
    using assms(1) by (auto simp: sentimentAgentOf_def dest: find_Some_nonempty)
  have st: "sentimentTally (find (\<lambda>a. name a = ''Sentiment Analyzer'') ?ok) = Inr (Some ?t)"
    using assms(1) sentimentTally_truthy [OF kvs assms(3,4)] by (simp add: sentimentAgentOf_def)
  define r where "r = \<lparr>sentiment = Some ?t,
    entities = entityList (find (\<lambda>a. name a = ''Entity Extractor'') ?ok)\<rparr>"
  have na: "newAnalysis ?ok = Inr r"
    using st by (simp add: newAnalysis_def Let_def r_def)
  have "aggregate fin w = Inr (w\<lparr>analysisResult := Some r\<rparr>)"
    using ne na by (simp add: aggregate_def Let_def r_def)
  moreover have "sentiment r = Some ?t" by (simp add: r_def)
  moreover have "\<forall>xs r' t. newAnalysis xs = Inr r' \<longrightarrow> sentiment r' = Some t \<longrightarrow> oneHot t"
    using newAnalysis_oneHot by blast
  ultimately show ?thesis by blast
qed

theorem sentiment_label_gives_tally_witness:
  "sentimentAgentOf [done_task ''agent-1'' ''Sentiment Analyzer'' (JObj [(''sentiment'', JStr ''Positive'')])]
     = Some (done_task ''agent-1'' ''Sentiment Analyzer'' (JObj [(''sentiment'', JStr ''Positive'')]))
   \<and> truthy (JStr ''Positive'') \<and> js_String (JStr ''Positive'') = Some ''Positive''
   \<and> toLowerCase ''Positive'' = ''positive''
   \<and> (\<exists>r. aggregate [done_task ''agent-1'' ''Sentiment Analyzer''
                        (JObj [(''sentiment'', JStr ''Positive'')])] sample_state
              = Inr (sample_state\<lparr>analysisResult := Some r\<rparr>)
            \<and> sentiment r = Some \<lparr>positive = 1, negative = 0, neutral = 0\<rparr>)
   \<and> toLowerCase ''Unknown'' = ''unknown''
   \<and> (\<exists>r. aggregate [done_task ''agent-1'' ''Sentiment Analyzer''
                        (JObj [(''sentiment'', JStr ''Unknown'')])] sample_state
              = Inr (sample_state\<lparr>analysisResult := Some r\<rparr>)
            \<and> sentiment r = Some \<lparr>positive = 0, negative = 0, neutral = 1\<rparr>)"
proof -
  let ?p = "done_task ''agent-1'' ''Sentiment Analyzer'' (JObj [(''sentiment'', JStr ''Positive'')])"
  let ?u = "done_task ''agent-1'' ''Sentiment Analyzer'' (JObj [(''sentiment'', JStr ''Unknown'')])"
  have p1: "sentimentAgentOf [?p] = Some ?p" by (simp add: sentimentAgentOf_def done_task_def)
  have p2: "get_property (outputJson ?p) ''sentiment'' = Some (JStr ''Positive'')"
    by (simp add: done_task_def)
  have u1: "sentimentAgentOf [?u] = Some ?u" by (simp add: sentimentAgentOf_def done_task_def)
  have u2: "get_property (outputJson ?u) ''sentiment'' = Some (JStr ''Unknown'')"
    by (simp add: done_task_def)
  have t1: "truthy (JStr ''Positive'')" and t2: "truthy (JStr ''Unknown'')" by simp_all
  have s1: "js_String (JStr ''Positive'') = Some ''Positive''"
    and s2: "js_String (JStr ''Unknown'') = Some ''Unknown''" by simp_all
  have l1: "toLowerCase ''Positive'' = ''positive''" by code_simp
  have l2: "toLowerCase ''Unknown'' = ''unknown''" by code_simp
  have a: "\<exists>r. aggregate [?p] sample_state = Inr (sample_state\<lparr>analysisResult := Some r\<rparr>)
            \<and> sentiment r = Some \<lparr>positive = 1, negative = 0, neutral = 0\<rparr>"
    using sentiment_label_gives_tally [OF p1 p2 t1 s1, of sample_state] l1 by auto
  have b: "\<exists>r. aggregate [?u] sample_state = Inr (sample_state\<lparr>analysisResult := Some r\<rparr>)
            \<and> sentiment r = Some \<lparr>positive = 0, negative = 0, neutral = 1\<rparr>"
    using sentiment_label_gives_tally [OF u1 u2 t2 s2, of sample_state] l2 by auto
  show ?thesis using p1 t1 s1 l1 l2 a b by blast
qed

text \<open>
  The claim as it stands fails on a field that is present and falsy, here the empty
  string: the aggregation stores nothing, where the claim has a neutral tally. It
  fails as well on an object with an own property \<open>toString\<close>: the conversion to a
  string throws.
\<close>

theorem sentiment_field_without_tally:
  "aggregate [done_task ''agent-1'' ''Sentiment Analyzer'' (JObj [(''sentiment'', JStr [])])]
       sample_state = Inr sample_state
   \<and> analysisResult sample_state = None
   \<and> aggregate [done_task ''agent-1'' ''Sentiment Analyzer''
                  (JObj [(''sentiment'', JObj [(''toString'', JNum 1)])])] sample_state
       = Inl (ErrorInstance ''Cannot convert object to primitive value'')"
  by (simp add: aggregate_def newAnalysis_def sentimentTally_def entityList_def done_task_def
      sample_state_def Let_def)

text \<open>
  Claim C6, amended. On every final list of tasks on which the aggregation returns an
  analysis (the conversion of line 323 does not throw), the \<open>entities\<close> of the analysis
  are null unless the first task with
  the status \<open>Success\<close> and the name \<open>Entity Extractor\<close> has a sequence as its structured
  output; then they are the elements of that sequence that are objects with a string
  \<open>name\<close> and a string \<open>type\<close>, in their order, and none when no element is such. The
  analysis is stored when it has a tally or at least one entity.
\<close>

theorem entities_are_well_typed_elements:
  assumes "newAnalysis (filter (\<lambda>a. status a = Success) fin) = Inr r"
  shows "entities r
           = (case entityAgentOf fin of
                None \<Rightarrow> None
              | Some a \<Rightarrow>
                  (case outputJson a of JArr es \<Rightarrow> Some (filter wellTypedEntity es) | _ \<Rightarrow> None))
    \<and> (\<forall>e. wellTypedEntity e
          \<longleftrightarrow> (\<exists>kvs n t. e = JObj kvs \<and> map_of kvs ''name'' = Some (JStr n)
                           \<and> map_of kvs ''type'' = Some (JStr t)))
    \<and> (filter (\<lambda>a. status a = Success) fin \<noteq> [] \<longrightarrow>
          aggregate fin w
            = Inr (if sentiment r \<noteq> None \<or> (\<exists>es. entities r = Some es \<and> es \<noteq> [])
                   then w\<lparr>analysisResult := Some r\<rparr> else w))
    \<and> (filter (\<lambda>a. status a = Success) fin = [] \<longrightarrow> aggregate fin w = Inr w)"
proof -
  have e: "entities r = entityList (entityAgentOf fin)"
    using assms by (auto simp: newAnalysis_def entityAgentOf_def Let_def split: sum.splits)
  have c1: "entities r
           = (case entityAgentOf fin of
                None \<Rightarrow> None
              | Some a \<Rightarrow>
                  (case outputJson a of JArr es \<Rightarrow> Some (filter wellTypedEntity es) | _ \<Rightarrow> None))"
    unfolding e by (simp add: entityList_def)
  have c3: "aggregate fin w
            = Inr (if sentiment r \<noteq> None \<or> (\<exists>es. entities r = Some es \<and> es \<noteq> [])
                   then w\<lparr>analysisResult := Some r\<rparr> else w)"
    if "filter (\<lambda>a. status a = Success) fin \<noteq> []"
    using that assms by (auto simp: aggregate_def Let_def split: option.splits)
  have c4: "aggregate fin w = Inr w" if "filter (\<lambda>a. status a = Success) fin = []"
    using that by (simp add: aggregate_def)
  show ?thesis using c1 c3 c4 wellTypedEntity_iff by blast
qed

theorem entities_are_well_typed_elements_witness:
  "newAnalysis (filter (\<lambda>a. status a = Success)
       [done_task ''agent-2'' ''Entity Extractor'' (JArr [acme, JObj [(''name'', JStr ''X'')]])])
     = Inr \<lparr>sentiment = None, entities = Some [acme]\<rparr>
   \<and> wellTypedEntity acme
   \<and> aggregate [done_task ''agent-2'' ''Entity Extractor'' (JArr [acme, JObj [(''name'', JStr ''X'')]])]
        sample_state
       = Inr (sample_state\<lparr>analysisResult := Some \<lparr>sentiment = None, entities = Some [acme]\<rparr>\<rparr>)"
proof -
  let ?fin = "[done_task ''agent-2'' ''Entity Extractor'' (JArr [acme, JObj [(''name'', JStr ''X'')]])]"
  have ok: "filter (\<lambda>a. status a = Success) ?fin = ?fin" by (simp add: done_task_def)
  have wt: "wellTypedEntity acme" by (simp add: wellTypedEntity_def acme_def)
  have nwt: "\<not> wellTypedEntity (JObj [(''name'', JStr ''X'')])" by (simp add: wellTypedEntity_def)
  have na: "newAnalysis (filter (\<lambda>a. status a = Success) ?fin)
              = Inr \<lparr>sentiment = None, entities = Some [acme]\<rparr>"
    using wt nwt
    by (simp add: newAnalysis_def sentimentTally_def entityList_def done_task_def Let_def)
  have ne: "filter (\<lambda>a. status a = Success) ?fin \<noteq> []" by (simp add: done_task_def)
  have "aggregate ?fin sample_state
       = Inr (sample_state\<lparr>analysisResult := Some \<lparr>sentiment = None, entities = Some [acme]\<rparr>\<rparr>)"
    using entities_are_well_typed_elements [OF na, of sample_state] ne by simp
  then show ?thesis using na wt by simp
qed

text \<open>
  The claim as it stands fails on an entity task whose sequence is empty beside a
  sentiment task: the analysis stored has the empty sequence as its \<open>entities\<close>, not
  null. Beside a sentiment task whose \<open>sentiment\<close> is an object with an own property
  \<open>toString\<close>, the aggregation throws before it reads the entity task, and returns no
  \<open>entities\<close> at all.
\<close>

theorem empty_entities_are_stored:
  "aggregate [done_task ''agent-1'' ''Sentiment Analyzer'' (JObj [(''sentiment'', JStr ''positive'')]),
              done_task ''agent-2'' ''Entity Extractor'' (JArr [])] sample_state
     = Inr (sample_state\<lparr>analysisResult :=
              Some \<lparr>sentiment = Some \<lparr>positive = 1, negative = 0, neutral = 0\<rparr>,
                    entities = Some []\<rparr>\<rparr>)
   \<and> aggregate [done_task ''agent-1'' ''Sentiment Analyzer''
                  (JObj [(''sentiment'', JObj [(''toString'', JNum 1)])]),
                done_task ''agent-2'' ''Entity Extractor'' (JArr [acme])] sample_state
     = Inl (ErrorInstance ''Cannot convert object to primitive value'')"
  by (simp add: aggregate_def newAnalysis_def sentimentTally_def entityList_def done_task_def
      toLowerCase_def toLowerCase_char_def Let_def)

text \<open>
  Claim C10, amended. When the field \<open>sentiment\<close> of the first task with the status
  \<open>Success\<close> and the name \<open>Sentiment Analyzer\<close> is absent, null, the empty string, 0
  or false, the analysis has no tally: its \<open>sentiment\<close> is null, and the aggregation
  stores that analysis or nothing.
\<close>

theorem falsy_sentiment_gives_no_tally:
  assumes "sentimentAgentOf fin = Some a"
    and "get_property (outputJson a) ''sentiment''
           \<in> {None, Some JNull, Some (JStr []), Some (JNum 0), Some (JBool False)}"
  shows "\<exists>r. newAnalysis (filter (\<lambda>a. status a = Success) fin) = Inr r \<and> sentiment r = None
           \<and> (aggregate fin w = Inr w \<or> aggregate fin w = Inr (w\<lparr>analysisResult := Some r\<rparr>))"
proof -
  let ?ok = "filter (\<lambda>a. status a = Success) fin"
  have "sentimentTally (Some a) = Inr None"
    using assms(2) by (auto simp: sentimentTally_def split: option.splits)
  then have st: "sentimentTally (find (\<lambda>a. name a = ''Sentiment Analyzer'') ?ok) = Inr None"
    using assms(1) by (simp add: sentimentAgentOf_def)
  define r where "r = \<lparr>sentiment = None,
    entities = entityList (find (\<lambda>a. name a = ''Entity Extractor'') ?ok)\<rparr>"
  have na: "newAnalysis ?ok = Inr r"
    using st by (simp add: newAnalysis_def Let_def r_def)
  have "aggregate fin w = Inr w \<or> aggregate fin w = Inr (w\<lparr>analysisResult := Some r\<rparr>)"
    using na by (simp add: aggregate_def Let_def)
  then show ?thesis using na by (auto simp: r_def)
qed

theorem falsy_sentiment_gives_no_tally_witness:
  "sentimentAgentOf [done_task ''agent-1'' ''Sentiment Analyzer'' (JObj [(''sentiment'', JNum 0)])]
     = Some (done_task ''agent-1'' ''Sentiment Analyzer'' (JObj [(''sentiment'', JNum 0)]))
   \<and> get_property (outputJson (done_task ''agent-1'' ''Sentiment Analyzer''
                                   (JObj [(''sentiment'', JNum 0)]))) ''sentiment'' = Some (JNum 0)
   \<and> (\<exists>r. newAnalysis (filter (\<lambda>a. status a = Success)
               [done_task ''agent-1'' ''Sentiment Analyzer'' (JObj [(''sentiment'', JNum 0)])]) = Inr r
            \<and> sentiment r = None)"
proof -
  let ?z = "done_task ''agent-1'' ''Sentiment Analyzer'' (JObj [(''sentiment'', JNum 0)])"
  have z1: "sentimentAgentOf [?z] = Some ?z" by (simp add: sentimentAgentOf_def done_task_def)
  have z2: "get_property (outputJson ?z) ''sentiment'' = Some (JNum 0)"
    by (simp add: done_task_def)
  have z3: "get_property (outputJson ?z) ''sentiment''
           \<in> {None, Some JNull, Some (JStr []), Some (JNum 0), Some (JBool False)}"
    using z2 by simp
  have "\<exists>r. newAnalysis (filter (\<lambda>a. status a = Success) [?z]) = Inr r \<and> sentiment r = None"
    using falsy_sentiment_gives_no_tally [OF z1 z3, of sample_state] by blast
  then show ?thesis using z1 z2 by blast
qed

text \<open>
  The claim as it stands fails on a list with two tasks of that name, the first with
  the sentiment \<open>positive\<close> and the second with the empty string: the aggregation
  reads the first one (line 318) and stores a positive tally.
\<close>

theorem second_sentiment_task_is_not_read:
  "aggregate [done_task ''agent-1'' ''Sentiment Analyzer'' (JObj [(''sentiment'', JStr ''positive'')]),
              done_task ''agent-2'' ''Sentiment Analyzer'' (JObj [(''sentiment'', JStr [])])]
       sample_state
     = Inr (sample_state\<lparr>analysisResult :=
              Some \<lparr>sentiment = Some \<lparr>positive = 1, negative = 0, neutral = 0\<rparr>,
                    entities = None\<rparr>\<rparr>)"
  by (simp add: aggregate_def newAnalysis_def sentimentTally_def entityList_def done_task_def
      toLowerCase_def toLowerCase_char_def Let_def)

section \<open>The claim on the follow-up questions\<close>

text \<open>
  Claim C7. The follow-up questions are asked for exactly when a task reached
  \<open>Success\<close>. The runner does not keep that on the reply below: the task reaches
  \<open>Success\<close>, the conversion of its \<open>sentiment\<close> to a string throws in the aggregation,
  nothing catches it, and the run ends there, with no call for the follow-up questions
  and \<open>isProcessing\<close> still true.
\<close>

theorem aggregation_throw_skips_followUp:
  "fst (runWorkflow toString_reply toString_parse sentiment_only)
     = Some (ErrorInstance ''Cannot convert object to primitive value'')
   \<and> map status (agents (snd (runWorkflow toString_reply toString_parse sentiment_only))) = [Success]
   \<and> calls (snd (runWorkflow toString_reply toString_parse sentiment_only))
       = [RunAgentCall (resetAgent (sample_agent ''agent-1'' ''Sentiment Analyzer'')) ''Acme ships.'']
   \<and> followUpQuestions (snd (runWorkflow toString_reply toString_parse sentiment_only)) = None
   \<and> isProcessing (snd (runWorkflow toString_reply toString_parse sentiment_only)) = True"
  by (simp add: runWorkflow_def epilogue_def prologue_def sentiment_only_def sample_state_def
      sample_agent_def toString_reply_def runAgent_def startIteration_def onFulfilled_def
      setAgents_def mapById_def successfulUpdate_def resetAgent_def aggregate_def newAnalysis_def
      sentimentTally_def toString_reply_extract Let_def)

section \<open>The claim on runs that overlap\<close>

text \<open>
  Claim C9. When a run starts while the call of an earlier run is in flight, the
  completion of the earlier run is discarded. The runner does not keep that on the
  sample state: a run is started; a pasted document is loaded while its first call is in
  flight, which clears \<open>isProcessing\<close> and enables the button; a second run is started;
  then the answer to the first call arrives. Nothing checks which run is the active one:
  the first task, running in the second run, gets the status \<open>Success\<close> and the output
  of the first run, while the call of the second run is still in flight.
\<close>

theorem stale_completion_overwrites_new_run:
  "clickRun sample_state = (Some run_A, after_A)
   \<and> clickRun (handlePasteLoad ''New text.'' after_A) = (Some run_B, after_B)
   \<and> content after_B = ''New text.''
   \<and> map status (agents after_B) = [Running, Pending, Pending]
   \<and> stale_result = onFulfilled toy_parse (awaited run_A) ''old answer'' (locals run_A, after_B)
   \<and> map status (agents (snd stale_result)) = [Success, Pending, Pending]
   \<and> map output (agents (snd stale_result)) = [Some ''old answer'', None, None]
   \<and> agents (snd stale_result) \<noteq> agents after_B"
proof -
  have c: "content after_B = ''New text.''"
    by (simp add: after_B_def startIteration_def setAgents_def prologue_def loaded_fields Let_def)
  have s: "map status (agents after_B) = [Running, Pending, Pending]"
    by (simp add: after_B_agents after_A_agents)
  have h3: "distinct (map agent_id (agents sample_state))"
    by (simp add: sample_state_def sample_agent_def)
  have "agents (snd (onFulfilled toy_parse (awaited run_A) ''old answer'' (locals run_A, after_B)))
       = successfulUpdate ''old answer'' (extractOutputJson toy_parse ''old answer'') (awaited run_B)
           # remaining run_B"
    using stale_completion_is_applied [OF sample_first_click sample_second_click h3,
        where P = toy_parse and t = "''old answer''" and gen = always_ok]
    by blast
  then have ag: "agents (snd stale_result)
       = successfulUpdate ''old answer'' (extractOutputJson toy_parse ''old answer'') (awaited run_B)
           # remaining run_B"
    by (simp add: stale_result_def)
  have s': "map status (agents (snd stale_result)) = [Success, Pending, Pending]"
    by (simp add: ag run_B_def run_A_def successfulUpdate_def)
  have o': "map output (agents (snd stale_result)) = [Some ''old answer'', None, None]"
    by (simp add: ag run_B_def run_A_def successfulUpdate_def)
  have "map status (agents (snd stale_result)) \<noteq> map status (agents after_B)"
    by (simp add: s s')
  then have ne: "agents (snd stale_result) \<noteq> agents after_B" by auto
  show ?thesis
    using sample_first_click sample_second_click c s s' o' ne by (simp add: stale_result_def)
qed

end
